theory Spec2Isabelle
  imports Complex_Main
begin

unbundle bit_operations_syntax

section \<open>Order-book reconciliation of the OKEX websocket wrapper (ws_base.go)\<close>

subsection \<open>Values and library functions the code relies on\<close>

text \<open>
  A cell of a level is a Go \<open>interface{}\<close> filled by the JSON decoder. The code tells
  strings from everything else (the type assertion \<open>.(string)\<close>), so a cell is either a
  string or a value of any other dynamic type (a float64 number, a bool, nil, a nested
  array or object), kept abstract in \<open>'v\<close>. A level is the array \<open>[4]interface{}\<close>.
\<close>

datatype 'v iface = IString string | IValue 'v

type_synonym 'v level = "'v iface \<times> 'v iface \<times> 'v iface \<times> 'v iface"

fun cell0 :: "'v level \<Rightarrow> 'v iface" where
  "cell0 (a, b, c, d) = a"

fun cell1 :: "'v level \<Rightarrow> 'v iface" where
  "cell1 (a, b, c, d) = b"

text \<open>
  Functions that are called by ws_base.go and defined elsewhere are parameters of the
  model: \<open>strconv.ParseFloat\<close> (\<open>None\<close> when it returns an error), the repository's
  helper \<open>StringToInt64\<close>, which returns a plain int64 and no error, and the rendering
  of a non-string value by the verb \<open>%v\<close> of \<open>fmt.Sprintf\<close>.

  A price is a float64: NaN, which \<open>ParseFloat\<close> returns with a nil error for the
  string "NaN", or any other value (the infinities included), kept in a linearly
  ordered type \<open>'k\<close>. The comparisons of Go are false whenever an operand is NaN.
\<close>

datatype 'k float64 = NaN | Num 'k

fun lessF :: "'k::linorder float64 \<Rightarrow> 'k float64 \<Rightarrow> bool" where
  "lessF (Num a) (Num b) = (a < b)"
| "lessF NaN y = False"
| "lessF (Num a) NaN = False"

fun geqF :: "'k::linorder float64 \<Rightarrow> 'k float64 \<Rightarrow> bool" where
  "geqF (Num a) (Num b) = (a \<ge> b)"
| "geqF NaN y = False"
| "geqF (Num a) NaN = False"

record ('k, 'v) golib =
  ParseFloat :: "string \<Rightarrow> 'k float64 option"
  StringToInt64 :: "string \<Rightarrow> int"
  FormatValue :: "'v \<Rightarrow> string"

text \<open>\<open>%v\<close> prints a string as it is.\<close>

fun Sprint_v :: "('k, 'v) golib \<Rightarrow> 'v iface \<Rightarrow> string" where
  "Sprint_v L (IString s) = s"
| "Sprint_v L (IValue v) = FormatValue L v"

subsection \<open>CRC-32 with the IEEE polynomial (hash/crc32.ChecksumIEEE)\<close>

text \<open>
  The reflected CRC-32 over a 32-bit register held as a natural number: initial value
  and final inversion \<open>0xFFFFFFFF\<close>, polynomial \<open>0xEDB88320\<close>, one bit at a time
  (shifting right never leaves the 32 bits). \<open>int32\<close> is Go's conversion of the
  uint32 result to int32, the two's-complement reading.
\<close>

definition crcShift :: "nat \<Rightarrow> nat" where
  "crcShift c = (if c mod 2 = 1 then (c div 2) XOR 0xEDB88320 else c div 2)"

definition crcByte :: "nat \<Rightarrow> char \<Rightarrow> nat" where
  "crcByte c b = (crcShift ^^ 8) (c XOR of_char b)"

definition ChecksumIEEE :: "string \<Rightarrow> nat" where
  "ChecksumIEEE bs = foldl crcByte 0xFFFFFFFF bs XOR 0xFFFFFFFF"

definition int32 :: "nat \<Rightarrow> int" where
  "int32 x = (if x mod 2 ^ 32 < 2 ^ 31 then int (x mod 2 ^ 32) else int (x mod 2 ^ 32) - 2 ^ 32)"

subsection \<open>The ordered tree of a book side (gods redblacktree with a comparator)\<close>

text \<open>
  The tree is used through \<open>NewWith\<close>, \<open>Put\<close>, \<open>Remove\<close>, \<open>Left\<close>, \<open>Size\<close> and its
  in-order iterator. It is modelled by its in-order sequence of nodes; the comparator is
  passed to every operation that searches. A search stops at the first node the
  comparator calls equal to the key. With keys that are not NaN at most one node is,
  and the sequence decides the result. A NaN key is called equal to every node: the
  tree then takes the first node on its search path (its root), the sequence the first
  node in order. The two are the same node in a tree of one node, and NaN is run below
  on trees of at most one node only; the theorems about keys ask for keys other than
  NaN.
\<close>

type_synonym ('k, 'a) tree = "('k \<times> 'a) list"

fun Put :: "('k \<Rightarrow> 'k \<Rightarrow> int) \<Rightarrow> ('k, 'a) tree \<Rightarrow> 'k \<Rightarrow> 'a \<Rightarrow> ('k, 'a) tree" where
  "Put cmp [] k v = [(k, v)]"
| "Put cmp ((k', v') # t) k v =
     (if cmp k k' = 0 then (k, v) # t
      else if cmp k k' < 0 then (k, v) # (k', v') # t
      else (k', v') # Put cmp t k v)"

fun Remove :: "('k \<Rightarrow> 'k \<Rightarrow> int) \<Rightarrow> ('k, 'a) tree \<Rightarrow> 'k \<Rightarrow> ('k, 'a) tree" where
  "Remove cmp [] k = []"
| "Remove cmp ((k', v') # t) k =
     (if cmp k k' = 0 then t
      else if cmp k k' < 0 then (k', v') # t
      else (k', v') # Remove cmp t k)"

fun Get :: "('k \<Rightarrow> 'k \<Rightarrow> int) \<Rightarrow> ('k, 'a) tree \<Rightarrow> 'k \<Rightarrow> 'a option" where
  "Get cmp [] k = None"
| "Get cmp ((k', v') # t) k =
     (if cmp k k' = 0 then Some v'
      else if cmp k k' < 0 then None
      else Get cmp t k)"

fun Left :: "('k, 'a) tree \<Rightarrow> ('k \<times> 'a) option" where
  "Left [] = None"
| "Left (n # t) = Some n"

text \<open>
  The two comparators; \<open>left > right\<close> is \<open>right < left\<close>. Both return 0 when an
  operand is NaN.
\<close>

definition bidPriceLevelComparator :: "'k::linorder float64 \<Rightarrow> 'k float64 \<Rightarrow> int" where
  "bidPriceLevelComparator leftPriceLevel rightPriceLevel =
     (if lessF leftPriceLevel rightPriceLevel then 1
      else if lessF rightPriceLevel leftPriceLevel then -1
      else 0)"

definition askPriceLevelComparator :: "'k::linorder float64 \<Rightarrow> 'k float64 \<Rightarrow> int" where
  "askPriceLevelComparator leftPriceLevel rightPriceLevel =
     (if lessF leftPriceLevel rightPriceLevel then -1
      else if lessF rightPriceLevel leftPriceLevel then 1
      else 0)"

subsection \<open>The checksum of the two sides\<close>

text \<open>\<open>crc32BaseBuffer.WriteString(":")\<close> guarded by \<open>crc32BaseBuffer.Len() > 0\<close>.\<close>

definition writeSep :: "string \<Rightarrow> string" where
  "writeSep buf = (if length buf > 0 then buf @ '':'' else buf)"

definition writeBoth :: "('k, 'v) golib \<Rightarrow> 'v level list \<Rightarrow> 'v level list \<Rightarrow> nat \<Rightarrow> string \<Rightarrow> string" where
  "writeBoth L bidDepths askDepths i buf =
     writeSep buf @
       Sprint_v L (cell0 (bidDepths ! i)) @ '':'' @ Sprint_v L (cell1 (bidDepths ! i)) @ '':'' @
       Sprint_v L (cell0 (askDepths ! i)) @ '':'' @ Sprint_v L (cell1 (askDepths ! i))"

definition writeOne :: "('k, 'v) golib \<Rightarrow> 'v level list \<Rightarrow> nat \<Rightarrow> string \<Rightarrow> string" where
  "writeOne L depths i buf =
     writeSep buf @ Sprint_v L (cell0 (depths ! i)) @ '':'' @ Sprint_v L (cell1 (depths ! i))"

text \<open>
  The result is the buffer and the checksum; \<open>int32(...)\<close> of the unsigned CRC is its
  two's-complement reading \<open>int32\<close>. Every index read is below the length of its list.
\<close>

definition calCrc32 :: "('k, 'v) golib \<Rightarrow> 'v level list \<Rightarrow> 'v level list \<Rightarrow> string \<times> int" where
  "calCrc32 L askDepths bidDepths =
     (let crcAskDepth = (if length askDepths < 25 then length askDepths else 25);
          crcBidDepth = (if length bidDepths < 25 then length bidDepths else 25);
          crc32BaseBuffer =
            (if crcAskDepth = crcBidDepth
             then fold (writeBoth L bidDepths askDepths) [0..<crcAskDepth] []
             else fold (writeOne L askDepths) [0..<crcAskDepth]
                    (fold (writeOne L bidDepths) [0..<crcBidDepth] []))
      in (crc32BaseBuffer, int32 (ChecksumIEEE crc32BaseBuffer)))"

text \<open>The pre-hash string as the specification words it.\<close>

fun joinColon :: "string list \<Rightarrow> string" where
  "joinColon [] = []"
| "joinColon [x] = x"
| "joinColon (x # y # ys) = x @ '':'' @ joinColon (y # ys)"

definition priceSize :: "('k, 'v) golib \<Rightarrow> 'v level \<Rightarrow> string" where
  "priceSize L lv = joinColon [Sprint_v L (cell0 lv), Sprint_v L (cell1 lv)]"

definition preHash :: "('k, 'v) golib \<Rightarrow> 'v level list \<Rightarrow> 'v level list \<Rightarrow> string" where
  "preHash L bids asks =
     (if length bids = length asks
      then joinColon (map2 (\<lambda>b a. joinColon [priceSize L b, priceSize L a]) bids asks)
      else joinColon (map (priceSize L) bids @ map (priceSize L) asks))"

subsection \<open>Depth items and their merge\<close>

text \<open>
  A call either returns or panics (a failed type assertion, a nil dereference); a panic
  unwinds to the \<open>recover\<close> of the read loop, which ends the loop.

  Several structs of the source share field names (\<open>Table\<close>, \<open>Asks\<close>, \<open>Checksum\<close>,
  \<open>Event\<close>), which records of one theory cannot: the fields of \<open>WsDepthUpdates\<close> are
  prefixed with \<open>u\<close>, those of the responses with \<open>r\<close>, \<open>ev\<close>, \<open>t\<close> and \<open>er\<close>, the
  table name of \<open>WSHotDepths\<close> is \<open>hdTable\<close>; \<open>WSDepthItem\<close> keeps the names of the
  source. An int32 field holds an integer.
\<close>

datatype 'a run = Panics | Returns 'a

datatype error =
    BadPrice
  | ChecksumNotCorrect string int int
  | TableNotMatched string string
  | FormatError
  | BidNotBelowAsk

record 'v WsDepthUpdates =
  uInstrumentId :: string
  uAsks :: "'v level list"
  uBids :: "'v level list"
  uTimestamp :: string
  uChecksum :: int

record ('k, 'v) WSDepthItem =
  InstrumentId :: string
  Bids :: "('k float64, 'v level) tree"
  Asks :: "('k float64, 'v level) tree"
  Timestamp :: string
  Checksum :: int

text \<open>The iterator visits the nodes in order; the \<open>i\<close>-th \<open>Next\<close> stands on node \<open>i\<close>.\<close>

definition first25Updates :: "('k float64, 'v level) tree \<Rightarrow> 'v level list" where
  "first25Updates t =
     (let size = (if length t > 25 then 25 else length t)
      in map (\<lambda>i. snd (t ! i)) [0..<size])"

text \<open>
  \<open>mergeDepths\<close> changes the tree in place, so the tree it leaves is returned with the
  error. \<open>newItem[0].(string)\<close> and \<open>newItem[1].(string)\<close> panic on a cell that is not
  a string.
\<close>

fun mergeDepths ::
  "('k, 'v) golib \<Rightarrow> ('k float64 \<Rightarrow> 'k float64 \<Rightarrow> int) \<Rightarrow> ('k float64, 'v level) tree
     \<Rightarrow> 'v level list \<Rightarrow> (error option \<times> ('k float64, 'v level) tree) run" where
  "mergeDepths L cmp oldDepths [] = Returns (None, oldDepths)"
| "mergeDepths L cmp oldDepths (newItem # rest) =
     (case cell0 newItem of
        IValue x \<Rightarrow> Panics
      | IString priceStr \<Rightarrow>
          (case ParseFloat L priceStr of
             None \<Rightarrow> Returns (Some BadPrice, oldDepths)
           | Some newPrice \<Rightarrow>
               (case cell1 newItem of
                  IValue y \<Rightarrow> Panics
                | IString numStr \<Rightarrow>
                    if StringToInt64 L numStr = 0
                    then mergeDepths L cmp (Remove cmp oldDepths newPrice) rest
                    else mergeDepths L cmp (Put cmp oldDepths newPrice newItem) rest)))"

text \<open>
  \<open>update\<close> works on the item behind the pointer: the item it leaves is returned with
  the error, also when the error is not nil.
\<close>

definition update ::
  "('k::linorder, 'v) golib \<Rightarrow> ('k, 'v) WSDepthItem \<Rightarrow> 'v WsDepthUpdates
     \<Rightarrow> (error option \<times> ('k, 'v) WSDepthItem) run" where
  "update L di newDI =
     (case mergeDepths L askPriceLevelComparator (Asks di) (uAsks newDI) of
        Panics \<Rightarrow> Panics
      | Returns (err1, asks') \<Rightarrow>
          (let di1 = di\<lparr>Asks := asks'\<rparr> in
           case err1 of
             Some e1 \<Rightarrow> Returns (Some e1, di1)
           | None \<Rightarrow>
               (case mergeDepths L bidPriceLevelComparator (Bids di1) (uBids newDI) of
                  Panics \<Rightarrow> Panics
                | Returns (err2, bids') \<Rightarrow>
                    (let di2 = di1\<lparr>Bids := bids'\<rparr> in
                     case err2 of
                       Some e2 \<Rightarrow> Returns (Some e2, di2)
                     | None \<Rightarrow>
                         (let askDepths = first25Updates (Asks di2);
                              bidDepths = first25Updates (Bids di2);
                              (crc32BaseBuffer, expectCrc32) = calCrc32 L askDepths bidDepths
                          in if expectCrc32 \<noteq> uChecksum newDI
                             then Returns (Some (ChecksumNotCorrect crc32BaseBuffer expectCrc32
                                                   (uChecksum newDI)), di2)
                             else Returns (None, di2\<lparr>Checksum := uChecksum newDI,
                                                      Timestamp := uTimestamp newDI\<rparr>))))))"

text \<open>\<open>newDepthItem\<close> drops the error of \<open>update\<close>.\<close>

definition newDepthItem ::
  "('k::linorder, 'v) golib \<Rightarrow> 'v WsDepthUpdates \<Rightarrow> ('k, 'v) WSDepthItem run" where
  "newDepthItem L updates =
     (let item = \<lparr>InstrumentId = uInstrumentId updates, Bids = [], Asks = [],
                   Timestamp = uTimestamp updates, Checksum = uChecksum updates\<rparr>
      in case update L item updates of
           Panics \<Rightarrow> Panics
         | Returns (err, item') \<Rightarrow> Returns item')"

subsection \<open>The depth table and its books\<close>

record 'v WSDepthTableResponse =
  rTable :: string
  rAction :: string
  rData :: "'v WsDepthUpdates list"

fun HasPrefix :: "string \<Rightarrow> string \<Rightarrow> bool" where
  "HasPrefix s [] = True"
| "HasPrefix [] (p # ps) = False"
| "HasPrefix (c # cs) (p # ps) = (c = p \<and> HasPrefix cs ps)"

fun Contains :: "string \<Rightarrow> string \<Rightarrow> bool" where
  "Contains [] substr = (substr = [])"
| "Contains (c # cs) substr = (HasPrefix (c # cs) substr \<or> Contains cs substr)"

definition DepthTableValid :: "'v WSDepthTableResponse \<Rightarrow> bool" where
  "DepthTableValid r =
     ((length (rTable r) > 0 \<or> length (rAction r) > 0) \<and> Contains (rTable r) ''depth''
      \<and> length (rData r) > 0)"

record ('k, 'v) WSHotDepths =
  hdTable :: string
  DepthMap :: "string \<rightharpoonup> ('k, 'v) WSDepthItem"

definition NewWSHotDepths :: "string \<Rightarrow> ('k, 'v) WSHotDepths" where
  "NewWSHotDepths tb = \<lparr>hdTable = tb, DepthMap = Map.empty\<rparr>"

text \<open>The loop of \<open>case "partial"\<close> over \<open>r.Data\<close>.\<close>

fun loadPartial ::
  "('k::linorder, 'v) golib \<Rightarrow> ('k, 'v) WSHotDepths \<Rightarrow> 'v WsDepthUpdates list
     \<Rightarrow> (error option \<times> ('k, 'v) WSHotDepths) run" where
  "loadPartial L d [] = Returns (None, d)"
| "loadPartial L d (u # us) =
     (let (crc32BaseBuffer, expectCrc32) = calCrc32 L (uAsks u) (uBids u)
      in if expectCrc32 = uChecksum u
         then (case newDepthItem L u of
                 Panics \<Rightarrow> Panics
               | Returns item \<Rightarrow>
                   loadPartial L (d\<lparr>DepthMap := (DepthMap d)(uInstrumentId u \<mapsto> item)\<rparr>) us)
         else Returns (Some (ChecksumNotCorrect crc32BaseBuffer expectCrc32 (uChecksum u)), d))"

text \<open>
  The loop of \<open>case "update"\<close>. \<open>oldDI.update\<close> changes the item the map points to, also
  when it returns an error.
\<close>

fun loadUpdate ::
  "('k::linorder, 'v) golib \<Rightarrow> ('k, 'v) WSHotDepths \<Rightarrow> 'v WsDepthUpdates list
     \<Rightarrow> (error option \<times> ('k, 'v) WSHotDepths) run" where
  "loadUpdate L d [] = Returns (None, d)"
| "loadUpdate L d (newDI # us) =
     (case DepthMap d (uInstrumentId newDI) of
        Some oldDI \<Rightarrow>
          (case update L oldDI newDI of
             Panics \<Rightarrow> Panics
           | Returns (err, oldDI') \<Rightarrow>
               (let d' = d\<lparr>DepthMap := (DepthMap d)(uInstrumentId newDI \<mapsto> oldDI')\<rparr> in
                case err of
                  Some e \<Rightarrow> Returns (Some e, d')
                | None \<Rightarrow> loadUpdate L d' us))
      | None \<Rightarrow>
          (case newDepthItem L newDI of
             Panics \<Rightarrow> Panics
           | Returns item \<Rightarrow>
               loadUpdate L (d\<lparr>DepthMap := (DepthMap d)(uInstrumentId newDI \<mapsto> item)\<rparr>) us))"

text \<open>The \<open>switch r.Action\<close>.\<close>

definition applyAction ::
  "('k::linorder, 'v) golib \<Rightarrow> ('k, 'v) WSHotDepths \<Rightarrow> 'v WSDepthTableResponse
     \<Rightarrow> (error option \<times> ('k, 'v) WSHotDepths) run" where
  "applyAction L d r =
     (if rAction r = ''partial'' then loadPartial L (d\<lparr>hdTable := rTable r\<rparr>) (rData r)
      else if rAction r = ''update'' then loadUpdate L d (rData r)
      else Returns (None, d))"

text \<open>
  The last loop: \<open>depth.Asks\<close> panics when the map has no item for the instrument, and
  \<open>Left().Key\<close> panics on an empty tree. The test \<open>bid1 >= ask1\<close> is the comparison of
  float64, false when one of the two is NaN.
\<close>

fun checkBooks ::
  "('k::linorder, 'v) WSHotDepths \<Rightarrow> 'v WsDepthUpdates list \<Rightarrow> error option run" where
  "checkBooks d [] = Returns None"
| "checkBooks d (u # us) =
     (case DepthMap d (uInstrumentId u) of
        None \<Rightarrow> Panics
      | Some depth \<Rightarrow>
          (case Left (Asks depth) of
             None \<Rightarrow> Panics
           | Some (ask1, askLevel) \<Rightarrow>
               (case Left (Bids depth) of
                  None \<Rightarrow> Panics
                | Some (bid1, bidLevel) \<Rightarrow>
                    if geqF bid1 ask1 then Returns (Some BidNotBelowAsk)
                    else checkBooks d us)))"

definition loadWSDepthTableResponse ::
  "('k::linorder, 'v) golib \<Rightarrow> ('k, 'v) WSHotDepths \<Rightarrow> 'v WSDepthTableResponse
     \<Rightarrow> (error option \<times> ('k, 'v) WSHotDepths) run" where
  "loadWSDepthTableResponse L d r =
     (if hdTable d \<noteq> rTable r then Returns (Some (TableNotMatched (rTable r) (hdTable d)), d)
      else if \<not> DepthTableValid r then Returns (Some FormatError, d)
      else case applyAction L d r of
             Panics \<Rightarrow> Panics
           | Returns (Some e, d1) \<Rightarrow> Returns (Some e, d1)
           | Returns (None, d1) \<Rightarrow>
               (case checkBooks d1 (rData r) of
                  Panics \<Rightarrow> Panics
                | Returns err \<Rightarrow> Returns (err, d1)))"

subsection \<open>Classifying a raw message\<close>

record WSEventResponse =
  evEvent :: string
  evSuccess :: string
  evChannel :: string

definition EventValid :: "WSEventResponse \<Rightarrow> bool" where
  "EventValid r = ((length (evEvent r) > 0 \<and> length (evChannel r) > 0) \<or> evEvent r = ''login'')"

record 'v WSTableResponse =
  tTable :: string
  tAction :: string
  tData :: "'v iface list"

definition TableValid :: "'v WSTableResponse \<Rightarrow> bool" where
  "TableValid r = ((length (tTable r) > 0 \<or> length (tAction r) > 0) \<and> length (tData r) > 0)"

record WSErrorResponse =
  erEvent :: string
  erMessage :: string
  erErrorCode :: int

definition ErrorValid :: "WSErrorResponse \<Rightarrow> bool" where
  "ErrorValid r = (length (erEvent r) > 0 \<and> length (erMessage r) > 0 \<and> erErrorCode r \<ge> 30000)"

datatype 'v response =
    EventResponse WSEventResponse
  | DepthTableResponse "'v WSDepthTableResponse"
  | TableResponse "'v WSTableResponse"
  | ErrorResponse WSErrorResponse
  | Pong string

text \<open>
  \<open>JsonBytes2Struct\<close> is defined outside ws_base.go; its four uses, one for each target
  type, are parameters. \<open>Inl\<close> carries the error it returns.
\<close>

record ('e, 'v) jsonlib =
  toEventResponse :: "string \<Rightarrow> 'e + WSEventResponse"
  toDepthTableResponse :: "string \<Rightarrow> 'e + 'v WSDepthTableResponse"
  toTableResponse :: "string \<Rightarrow> 'e + 'v WSTableResponse"
  toErrorResponse :: "string \<Rightarrow> 'e + WSErrorResponse"

text \<open>\<open>err == nil && x.Valid()\<close>, and the \<open>err\<close> of a decode.\<close>

definition decoded :: "'e + 'a \<Rightarrow> ('a \<Rightarrow> bool) \<Rightarrow> 'a option" where
  "decoded res Valid = (case res of Inl err \<Rightarrow> None | Inr x \<Rightarrow> if Valid x then Some x else None)"

definition errOf :: "'e + 'a \<Rightarrow> 'e option" where
  "errOf res = (case res of Inl err \<Rightarrow> Some err | Inr x \<Rightarrow> None)"

definition loadResponse :: "('e, 'v) jsonlib \<Rightarrow> string \<Rightarrow> 'v response option \<times> 'e option" where
  "loadResponse J rspMsg =
     (case decoded (toEventResponse J rspMsg) EventValid of
        Some evtR \<Rightarrow> (Some (EventResponse evtR), None)
      | None \<Rightarrow>
     (case decoded (toDepthTableResponse J rspMsg) DepthTableValid of
        Some dtr \<Rightarrow> (Some (DepthTableResponse dtr), None)
      | None \<Rightarrow>
     (case decoded (toTableResponse J rspMsg) TableValid of
        Some tr \<Rightarrow> (Some (TableResponse tr), None)
      | None \<Rightarrow>
     (case decoded (toErrorResponse J rspMsg) ErrorValid of
        Some er \<Rightarrow> (Some (ErrorResponse er), None)
      | None \<Rightarrow>
          if rspMsg = ''pong'' then (Some (Pong rspMsg), None)
          else (None, errOf (toErrorResponse J rspMsg))))))"

subsection \<open>Predicates of the properties\<close>

text \<open>The two comparators the trees of an item are built with.\<close>

definition priceCmp :: "('k::linorder float64 \<Rightarrow> 'k float64 \<Rightarrow> int) \<Rightarrow> bool" where
  "priceCmp cmp = (cmp = bidPriceLevelComparator \<or> cmp = askPriceLevelComparator)"

text \<open>
  A side whose keys are numbers: \<open>numbers t\<close> is the side with the nodes of \<open>t\<close>, none
  of them keyed by NaN, and \<open>onNumbers cmp\<close> is the comparator on such keys. A side is
  ordered when no key is NaN and the nodes are in strictly increasing order of the
  comparator.
\<close>

definition numbers :: "('k, 'a) tree \<Rightarrow> ('k float64, 'a) tree" where
  "numbers t = map (\<lambda>n. (Num (fst n), snd n)) t"

definition onNumbers :: "('k float64 \<Rightarrow> 'k float64 \<Rightarrow> int) \<Rightarrow> 'k \<Rightarrow> 'k \<Rightarrow> int" where
  "onNumbers cmp a b = cmp (Num a) (Num b)"

definition ordered :: "('k float64 \<Rightarrow> 'k float64 \<Rightarrow> int) \<Rightarrow> ('k float64, 'a) tree \<Rightarrow> bool" where
  "ordered cmp t =
     (list_all (\<lambda>n. fst n \<noteq> NaN) t \<and> sorted_wrt (\<lambda>a b. cmp (fst a) (fst b) < 0) t)"

text \<open>The checksum test of \<open>case "partial"\<close> on one entry.\<close>

definition checksumMatches :: "('k, 'v) golib \<Rightarrow> 'v WsDepthUpdates \<Rightarrow> bool" where
  "checksumMatches L u = (snd (calCrc32 L (uAsks u) (uBids u)) = uChecksum u)"



text \<open>
  The classification as the specification words it: the attempts in their order, each
  giving a response when its decode succeeds and its validity predicate holds, and the
  first attempt that gives one.
\<close>

definition candidates :: "('e, 'v) jsonlib \<Rightarrow> string \<Rightarrow> 'v response option list" where
  "candidates J rspMsg =
     [map_option EventResponse (decoded (toEventResponse J rspMsg) EventValid),
      map_option DepthTableResponse (decoded (toDepthTableResponse J rspMsg) DepthTableValid),
      map_option TableResponse (decoded (toTableResponse J rspMsg) TableValid),
      map_option ErrorResponse (decoded (toErrorResponse J rspMsg) ErrorValid),
      if rspMsg = ''pong'' then Some (Pong rspMsg) else None]"

fun firstSome :: "'a option list \<Rightarrow> 'a option" where
  "firstSome [] = None"
| "firstSome (None # xs) = firstSome xs"
| "firstSome (Some x # xs) = Some x"

subsection \<open>An instance of the library parameters, for concrete runs\<close>

text \<open>
  The instance reads the strings used below as the library does. \<open>ParseFloat\<close> gives
  NaN on "NaN" and the number on an unsigned decimal such as "100" or "0.5"
  (digits, or digits, a point and digits); it fails on every other string, as
  \<open>strconv.ParseFloat\<close> does on "x" and "abc". The numbers are rationals.
  \<open>StringToInt64\<close> gives the number on a string of digits and 0 on every other string,
  "0.5" and "abc" among them, as an integer parse that drops its error does. A
  non-string cell is a whole number below a million, printed in decimal, or nil.
\<close>

datatype jvalue = Number nat | Null

fun digitsValue :: "string \<Rightarrow> nat \<Rightarrow> nat option" where
  "digitsValue [] acc = Some acc"
| "digitsValue (c # cs) acc =
     (if 48 \<le> (of_char c :: nat) \<and> (of_char c :: nat) \<le> 57
      then digitsValue cs (10 * acc + (of_char c - 48))
      else None)"

definition parseDigits :: "string \<Rightarrow> nat option" where
  "parseDigits s = (if s = [] then None else digitsValue s 0)"

definition parseDecimal :: "string \<Rightarrow> rat option" where
  "parseDecimal s =
     (case dropWhile (\<lambda>c. c \<noteq> CHR ''.'') s of
        [] \<Rightarrow> map_option of_nat (parseDigits s)
      | point # decimals \<Rightarrow>
          (case parseDigits (takeWhile (\<lambda>c. c \<noteq> CHR ''.'') s) of
             None \<Rightarrow> None
           | Some whole \<Rightarrow>
               (case parseDigits decimals of
                  None \<Rightarrow> None
                | Some part \<Rightarrow> Some (of_nat whole + of_nat part / 10 ^ length decimals))))"

fun showDigits :: "nat \<Rightarrow> string" where
  "showDigits n =
     (if n < 10 then [''0123456789'' ! n]
      else showDigits (n div 10) @ [''0123456789'' ! (n mod 10)])"

fun formatJvalue :: "jvalue \<Rightarrow> string" where
  "formatJvalue (Number n) = showDigits n"
| "formatJvalue Null = ''<nil>''"

definition decimalLib :: "(rat, jvalue) golib" where
  "decimalLib =
     \<lparr>ParseFloat = (\<lambda>s. if s = ''NaN'' then Some NaN else map_option Num (parseDecimal s)),
      StringToInt64 = (\<lambda>s. case parseDigits s of None \<Rightarrow> 0 | Some n \<Rightarrow> int n),
      FormatValue = formatJvalue\<rparr>"

text \<open>A level as the exchange sends it: four strings.\<close>

definition level4 :: "string \<Rightarrow> string \<Rightarrow> jvalue level" where
  "level4 price num = (IString price, IString num, IString ''0'', IString ''1'')"

text \<open>Depth entries, a table and an item with empty sides.\<close>

definition btc :: "jvalue WsDepthUpdates" where
  "btc = \<lparr>uInstrumentId = ''BTC-USD-SWAP'', uAsks = [level4 ''101'' ''1''],
           uBids = [level4 ''100'' ''1''], uTimestamp = ''2019-04-16T11:03:03.712Z'',
           uChecksum = 1189976625\<rparr>"

definition btcBad :: "jvalue WsDepthUpdates" where
  "btcBad = btc\<lparr>uChecksum := 7\<rparr>"

definition eth :: "jvalue WsDepthUpdates" where
  "eth = \<lparr>uInstrumentId = ''ETH-USD-SWAP'', uAsks = [level4 ''211'' ''1''],
           uBids = [level4 ''210'' ''1''], uTimestamp = ''2019-04-16T11:03:03.712Z'',
           uChecksum = - 808351045\<rparr>"



definition btcBadBid :: "jvalue WsDepthUpdates" where
  "btcBadBid = btc\<lparr>uBids := [level4 ''x'' ''1'']\<rparr>"

definition btcBadAsk :: "jvalue WsDepthUpdates" where
  "btcBadAsk = btc\<lparr>uAsks := [level4 ''x'' ''1'']\<rparr>"

definition noLevels :: "jvalue WsDepthUpdates" where
  "noLevels = \<lparr>uInstrumentId = ''BTC-USD-SWAP'', uAsks = [], uBids = [],
                uTimestamp = ''2019-04-16T11:03:03.712Z'', uChecksum = 0\<rparr>"

definition dropAsk :: "jvalue WsDepthUpdates" where
  "dropAsk = \<lparr>uInstrumentId = ''BTC-USD-SWAP'', uAsks = [level4 ''101'' ''0''], uBids = [],
               uTimestamp = ''2019-04-16T11:03:04.000Z'', uChecksum = - 95115943\<rparr>"

definition depthMsg :: "string \<Rightarrow> jvalue WsDepthUpdates list \<Rightarrow> jvalue WSDepthTableResponse" where
  "depthMsg action entries = \<lparr>rTable = ''swap/depth'', rAction = action, rData = entries\<rparr>"

definition hot0 :: "(rat, jvalue) WSHotDepths" where
  "hot0 = NewWSHotDepths ''swap/depth''"

definition item0 :: "(rat, jvalue) WSDepthItem" where
  "item0 = \<lparr>InstrumentId = ''BTC-USD-SWAP'', Bids = [], Asks = [],
             Timestamp = ''2019-04-16T11:03:00.000Z'', Checksum = 0\<rparr>"

text \<open>The items these entries build, and the tables holding them.\<close>

definition btcItem :: "(rat, jvalue) WSDepthItem" where
  "btcItem = \<lparr>InstrumentId = ''BTC-USD-SWAP'', Bids = [(Num 100, level4 ''100'' ''1'')],
               Asks = [(Num 101, level4 ''101'' ''1'')],
               Timestamp = ''2019-04-16T11:03:03.712Z'', Checksum = 1189976625\<rparr>"


definition ethItem :: "(rat, jvalue) WSDepthItem" where
  "ethItem = \<lparr>InstrumentId = ''ETH-USD-SWAP'', Bids = [(Num 210, level4 ''210'' ''1'')],
               Asks = [(Num 211, level4 ''211'' ''1'')],
               Timestamp = ''2019-04-16T11:03:03.712Z'', Checksum = - 808351045\<rparr>"



definition hotEth :: "(rat, jvalue) WSHotDepths" where
  "hotEth = \<lparr>hdTable = ''swap/depth'', DepthMap = [''ETH-USD-SWAP'' \<mapsto> ethItem]\<rparr>"

definition hotBtc :: "(rat, jvalue) WSHotDepths" where
  "hotBtc = \<lparr>hdTable = ''swap/depth'', DepthMap = [''BTC-USD-SWAP'' \<mapsto> btcItem]\<rparr>"




definition hotBtcBad :: "(rat, jvalue) WSHotDepths" where
  "hotBtcBad = \<lparr>hdTable = ''swap/depth'',
                 DepthMap = [''BTC-USD-SWAP'' \<mapsto> btcItem\<lparr>Checksum := 7\<rparr>]\<rparr>"


text \<open>
  The decoder on two messages. The JSON object \<open>{}\<close> decodes into every target type
  and leaves every field at its zero value; \<open>pong\<close> is not JSON and fails every decode.
\<close>

datatype jsonError = SyntaxError

definition tinyJson :: "(jsonError, jvalue) jsonlib" where
  "tinyJson =
     \<lparr>toEventResponse = (\<lambda>msg. if msg = ''{}''
         then Inr \<lparr>evEvent = [], evSuccess = [], evChannel = []\<rparr> else Inl SyntaxError),
      toDepthTableResponse = (\<lambda>msg. if msg = ''{}''
         then Inr \<lparr>rTable = [], rAction = [], rData = []\<rparr> else Inl SyntaxError),
      toTableResponse = (\<lambda>msg. if msg = ''{}''
         then Inr \<lparr>tTable = [], tAction = [], tData = []\<rparr> else Inl SyntaxError),
      toErrorResponse = (\<lambda>msg. if msg = ''{}''
         then Inr \<lparr>erEvent = [], erMessage = [], erErrorCode = 0\<rparr> else Inl SyntaxError)\<rparr>"

section \<open>Properties\<close>

subsection \<open>Evaluating the CRC\<close>

lemma crcShift_num:
  "crcShift 0 = 0"
  "crcShift 1 = 0xEDB88320"
  "crcShift (numeral (Num.Bit0 n)) = numeral n"
  "crcShift (numeral (Num.Bit1 n)) = numeral n XOR 0xEDB88320"
  by (simp_all add: crcShift_def)

lemma crcByte_unfold:
  "crcByte c b =
     crcShift (crcShift (crcShift (crcShift (crcShift (crcShift (crcShift (crcShift
       (c XOR of_char b))))))))"
  by (simp add: crcByte_def eval_nat_numeral)

lemmas crc_eval = ChecksumIEEE_def crcByte_unfold crcShift_num int32_def

text \<open>The check value of CRC-32/IEEE.\<close>

lemma ChecksumIEEE_check: "ChecksumIEEE ''123456789'' = 0xCBF43926"
  by (simp add: crc_eval)

text \<open>The register stays within 32 bits, and \<open>int32\<close> keeps those bits.\<close>

lemma xor_nat_less:
  fixes a b :: nat
  assumes "a < 2 ^ n" and "b < 2 ^ n"
  shows "a XOR b < 2 ^ n"
proof -
  from assms have "int a < int (2 ^ n)" and "int b < int (2 ^ n)"
    by (simp_all only: of_nat_less_iff)
  then have "int a < 2 ^ n" and "int b < 2 ^ n"
    by simp_all
  then have "int a XOR int b < 2 ^ n"
    by (intro XOR_upper) simp_all
  then have "int (a XOR b) < int (2 ^ n)"
    by (simp add: of_nat_xor_eq)
  then show ?thesis
    by (simp only: of_nat_less_iff)
qed

lemma crcShift_less: "c < 2 ^ 32 \<Longrightarrow> crcShift c < 2 ^ 32"
proof -
  assume c: "c < 2 ^ 32"
  then have d: "c div 2 < 2 ^ 32" by simp
  have p: "(0xEDB88320 :: nat) < 2 ^ 32" by simp
  show ?thesis
    unfolding crcShift_def using xor_nat_less [OF d p] d by simp
qed

lemma crcByte_less: "c < 2 ^ 32 \<Longrightarrow> crcByte c b < 2 ^ 32"
proof -
  assume c: "c < 2 ^ 32"
  have "(of_char b :: nat) mod 256 < 256" by simp
  then have "(of_char b :: nat) < 256" by (simp only: of_char_mod_256)
  also have "(256 :: nat) < 2 ^ 32" by simp
  finally have b: "(of_char b :: nat) < 2 ^ 32" .
  have x: "c XOR of_char b < 2 ^ 32" using c b by (rule xor_nat_less)
  show ?thesis
    unfolding crcByte_unfold by (intro crcShift_less x)
qed

lemma foldl_crcByte_less: "c < 2 ^ 32 \<Longrightarrow> foldl crcByte c bs < 2 ^ 32"
proof (induction bs arbitrary: c)
  case Nil
  then show ?case by simp
next
  case (Cons b bs)
  from Cons.IH [OF crcByte_less [OF Cons.prems]] show ?case by simp
qed

lemma ChecksumIEEE_less: "ChecksumIEEE bs < 2 ^ 32"
proof -
  have "foldl crcByte 0xFFFFFFFF bs < 2 ^ 32"
    by (rule foldl_crcByte_less) simp
  moreover have "(0xFFFFFFFF :: nat) < 2 ^ 32" by simp
  ultimately show ?thesis
    unfolding ChecksumIEEE_def by (rule xor_nat_less)
qed

lemma int32_range: "- (2 ^ 31) \<le> int32 x \<and> int32 x < 2 ^ 31"
proof (cases "x mod 2 ^ 32 < 2 ^ 31")
  case True
  then have "int (x mod 2 ^ 32) < int (2 ^ 31)" by (simp only: of_nat_less_iff)
  with True show ?thesis by (simp add: int32_def del: of_nat_mod)
next
  case False
  have "x mod 2 ^ 32 < 2 ^ 32" by simp
  then have "int (x mod 2 ^ 32) < int (2 ^ 32)" by (simp only: of_nat_less_iff)
  moreover from False have "int (2 ^ 31) \<le> int (x mod 2 ^ 32)" by (simp only: of_nat_le_iff not_less)
  ultimately show ?thesis using False by (simp add: int32_def)
qed

lemma int32_same_bits: "x < 2 ^ 32 \<Longrightarrow> int32 x mod 2 ^ 32 = int x"
proof -
  assume x: "x < 2 ^ 32"
  then have m: "x mod 2 ^ 32 = x" by simp
  from x have "int x < int (2 ^ 32)" by (simp only: of_nat_less_iff)
  then have b: "int x < 2 ^ 32" by simp
  have "(int x - 2 ^ 32) mod 2 ^ 32 = int x mod 2 ^ 32"
    using mod_add_self2 [of "int x - 2 ^ 32" "2 ^ 32"] by simp
  with b show ?thesis
    unfolding int32_def m by simp
qed

lemmas lib_eval = decimalLib_def parseDigits_def parseDecimal_def level4_def

subsection \<open>The pre-hash string\<close>

lemma joinColon_snoc:
  "joinColon (xs @ [x]) = (if xs = [] then x else joinColon xs @ '':'' @ x)"
  by (induction xs rule: joinColon.induct) auto

lemma joinColon_empty_iff: "\<forall>x\<in>set xs. x \<noteq> [] \<Longrightarrow> joinColon xs = [] \<longleftrightarrow> xs = []"
  by (induction xs rule: joinColon.induct) auto

lemma priceSize_ne: "priceSize L lv \<noteq> []"
  by (simp add: priceSize_def)

lemma join_priceSize_empty: "joinColon (map (priceSize L) xs) = [] \<longleftrightarrow> xs = []"
  by (subst joinColon_empty_iff) (auto simp: priceSize_ne)

lemma fold_writeOne:
  assumes "n \<le> length depths"
  shows "fold (writeOne L depths) [0..<n] (joinColon (map (priceSize L) pre))
         = joinColon (map (priceSize L) pre @ map (priceSize L) (take n depths))"
  using assms
proof (induction n)
  case 0
  then show ?case by simp
next
  case (Suc n)
  then have IH: "fold (writeOne L depths) [0..<n] (joinColon (map (priceSize L) pre))
         = joinColon (map (priceSize L) (pre @ take n depths))"
    and n: "n < length depths" by simp_all
  have "fold (writeOne L depths) [0..<Suc n] (joinColon (map (priceSize L) pre))
        = writeOne L depths n (joinColon (map (priceSize L) (pre @ take n depths)))"
    using IH by simp
  also have "\<dots> = joinColon (map (priceSize L) (pre @ take n depths) @ [priceSize L (depths ! n)])"
    unfolding joinColon_snoc
    by (simp add: writeOne_def writeSep_def join_priceSize_empty priceSize_def del: map_append)
  finally show ?case using n by (simp add: take_Suc_conv_app_nth)
qed

lemma writeBoth_eq:
  "writeBoth L bs as i buf = writeSep buf @ joinColon [priceSize L (bs ! i), priceSize L (as ! i)]"
  by (simp add: writeBoth_def priceSize_def)

lemma fold_writeBoth:
  assumes "n \<le> length bs" "n \<le> length as"
  shows "fold (writeBoth L bs as) [0..<n] []
         = joinColon (map2 (\<lambda>b a. joinColon [priceSize L b, priceSize L a]) (take n bs) (take n as))"
  using assms
proof (induction n)
  case 0
  then show ?case by simp
next
  case (Suc n)
  let ?q = "\<lambda>b a. joinColon [priceSize L b, priceSize L a]"
  let ?pre = "map2 ?q (take n bs) (take n as)"
  from Suc have IH: "fold (writeBoth L bs as) [0..<n] [] = joinColon ?pre"
    and n: "n < length bs" "n < length as" by simp_all
  have ne: "joinColon ?pre = [] \<longleftrightarrow> ?pre = []"
    by (rule joinColon_empty_iff) auto
  have "fold (writeBoth L bs as) [0..<Suc n] [] = writeBoth L bs as n (joinColon ?pre)"
    using IH by simp
  also have "\<dots> = joinColon (?pre @ [?q (bs ! n) (as ! n)])"
    unfolding joinColon_snoc writeBoth_eq writeSep_def using ne by auto
  finally show ?case using n by (simp add: take_Suc_conv_app_nth)
qed

lemma take25: "(if length xs < 25 then length xs else 25) = length (take 25 xs)"
  by auto

lemma take_len25: "take (length (take 25 xs)) xs = take 25 xs"
  by (simp add: min_def)

lemma calCrc32_buffer:
  "fst (calCrc32 L askDepths bidDepths) = preHash L (take 25 bidDepths) (take 25 askDepths)"
proof (cases "length (take 25 askDepths) = length (take 25 bidDepths)")
  case True
  have "fold (writeBoth L bidDepths askDepths) [0..<length (take 25 askDepths)] []
        = joinColon (map2 (\<lambda>b a. joinColon [priceSize L b, priceSize L a])
            (take (length (take 25 askDepths)) bidDepths)
            (take (length (take 25 askDepths)) askDepths))"
  proof (rule fold_writeBoth)
    show "length (take 25 askDepths) \<le> length bidDepths" unfolding True by simp
    show "length (take 25 askDepths) \<le> length askDepths" by simp
  qed
  also have "take (length (take 25 askDepths)) bidDepths = take 25 bidDepths"
    unfolding True by (rule take_len25)
  also have "take (length (take 25 askDepths)) askDepths = take 25 askDepths"
    by (rule take_len25)
  finally show ?thesis
    using True unfolding calCrc32_def Let_def take25 preHash_def by simp
next
  case False
  have "fold (writeOne L bidDepths) [0..<length (take 25 bidDepths)]
          (joinColon (map (priceSize L) []))
        = joinColon (map (priceSize L) []
            @ map (priceSize L) (take (length (take 25 bidDepths)) bidDepths))"
    by (rule fold_writeOne) simp
  moreover have "fold (writeOne L askDepths) [0..<length (take 25 askDepths)]
          (joinColon (map (priceSize L) (take 25 bidDepths)))
        = joinColon (map (priceSize L) (take 25 bidDepths)
            @ map (priceSize L) (take (length (take 25 askDepths)) askDepths))"
    by (rule fold_writeOne) simp
  ultimately show ?thesis
    using False unfolding calCrc32_def Let_def take25 preHash_def take_len25
    by simp
qed

lemma calCrc32_sum:
  "snd (calCrc32 L askDepths bidDepths)
     = int32 (ChecksumIEEE (fst (calCrc32 L askDepths bidDepths)))"
  by (simp add: calCrc32_def Let_def)

lemma calCrc32_eq:
  "calCrc32 L askDepths bidDepths =
     (preHash L (take 25 bidDepths) (take 25 askDepths),
      int32 (ChecksumIEEE (preHash L (take 25 bidDepths) (take 25 askDepths))))"
  using calCrc32_buffer [of L askDepths bidDepths] calCrc32_sum [of L askDepths bidDepths]
  by (cases "calCrc32 L askDepths bidDepths") simp

lemma first25Updates_eq: "first25Updates t = map snd (take 25 t)"
proof (rule nth_equalityI)
  show "length (first25Updates t) = length (map snd (take 25 t))"
    by (simp add: first25Updates_def Let_def min_def)
next
  fix i
  assume "i < length (first25Updates t)"
  then have "i < 25" and "i < length t"
    by (simp_all add: first25Updates_def Let_def split: if_splits)
  then show "first25Updates t ! i = map snd (take 25 t) ! i"
    by (simp add: first25Updates_def Let_def)
qed

lemmas run_eval = calCrc32_eq first25Updates_eq preHash_def priceSize_def crc_eval lib_eval

text \<open>
  C1. \<open>calCrc32\<close> cuts each side to its first 25 levels. Its buffer is the pre-hash
  string of the specification over the cut sides: with equal lengths the levels are
  interleaved index by index as bid price, bid size, ask price, ask size, otherwise all
  bid pairs come before all ask pairs, everything joined by a colon. The checksum is the
  CRC-32 (IEEE) of the buffer read as a signed 32-bit integer: a value of the int32
  range with the 32 bits of the CRC. In particular two bids
  100 and 99 of sizes "1" and "2" and two asks 101 and 102 of sizes "1" and "2" give
  the string 100:1:101:1:99:2:102:2, whenever \<open>%v\<close> prints the four numbers so.
\<close>

theorem calCrc32_prehash_checksum:
  "calCrc32 L askDepths bidDepths =
     (preHash L (take 25 bidDepths) (take 25 askDepths),
      int32 (ChecksumIEEE (preHash L (take 25 bidDepths) (take 25 askDepths))))
   \<and> length (take 25 bidDepths) \<le> 25 \<and> length (take 25 askDepths) \<le> 25
   \<and> - (2 ^ 31) \<le> snd (calCrc32 L askDepths bidDepths)
   \<and> snd (calCrc32 L askDepths bidDepths) < 2 ^ 31
   \<and> snd (calCrc32 L askDepths bidDepths) mod 2 ^ 32
       = int (ChecksumIEEE (preHash L (take 25 bidDepths) (take 25 askDepths)))
   \<and> (FormatValue L p100 = ''100'' \<and> FormatValue L p99 = ''99''
        \<and> FormatValue L p101 = ''101'' \<and> FormatValue L p102 = ''102'' \<longrightarrow>
      fst (calCrc32 L
             [(IValue p101, IString ''1'', a1, a2), (IValue p102, IString ''2'', a3, a4)]
             [(IValue p100, IString ''1'', b1, b2), (IValue p99, IString ''2'', b3, b4)])
        = ''100:1:101:1:99:2:102:2'')"
proof -
  have "calCrc32 L askDepths bidDepths =
     (preHash L (take 25 bidDepths) (take 25 askDepths),
      int32 (ChecksumIEEE (preHash L (take 25 bidDepths) (take 25 askDepths))))"
    by (rule calCrc32_eq)
  moreover have "- (2 ^ 31) \<le> snd (calCrc32 L askDepths bidDepths)
   \<and> snd (calCrc32 L askDepths bidDepths) < 2 ^ 31
   \<and> snd (calCrc32 L askDepths bidDepths) mod 2 ^ 32
       = int (ChecksumIEEE (preHash L (take 25 bidDepths) (take 25 askDepths)))"
    unfolding calCrc32_eq snd_conv
    using int32_range [of "ChecksumIEEE (preHash L (take 25 bidDepths) (take 25 askDepths))"]
      int32_same_bits [OF ChecksumIEEE_less,
        of "preHash L (take 25 bidDepths) (take 25 askDepths)"]
    by blast
  moreover have "fst (calCrc32 L
             [(IValue p101, IString ''1'', a1, a2), (IValue p102, IString ''2'', a3, a4)]
             [(IValue p100, IString ''1'', b1, b2), (IValue p99, IString ''2'', b3, b4)])
        = ''100:1:101:1:99:2:102:2''"
    if "FormatValue L p100 = ''100''" "FormatValue L p99 = ''99''"
       "FormatValue L p101 = ''101''" "FormatValue L p102 = ''102''"
    unfolding calCrc32_buffer using that by (simp add: preHash_def priceSize_def)
  ultimately show ?thesis by simp
qed

theorem calCrc32_prehash_checksum_witness:
  "FormatValue decimalLib (Number 100) = ''100'' \<and> FormatValue decimalLib (Number 99) = ''99''
   \<and> FormatValue decimalLib (Number 101) = ''101'' \<and> FormatValue decimalLib (Number 102) = ''102''
   \<and> calCrc32 decimalLib
        [(IValue (Number 101), IString ''1'', IValue Null, IValue Null),
         (IValue (Number 102), IString ''2'', IValue Null, IValue Null)]
        [(IValue (Number 100), IString ''1'', IValue Null, IValue Null),
         (IValue (Number 99), IString ''2'', IValue Null, IValue Null)]
      = (''100:1:101:1:99:2:102:2'', - 2076486480)"
proof -
  have f: "FormatValue decimalLib (Number 100) = ''100'' \<and> FormatValue decimalLib (Number 99) = ''99''
   \<and> FormatValue decimalLib (Number 101) = ''101'' \<and> FormatValue decimalLib (Number 102) = ''102''"
    by (simp add: decimalLib_def)
  let ?asks = "[(IValue (Number 101), IString ''1'', IValue Null, IValue Null),
         (IValue (Number 102), IString ''2'', IValue Null, IValue Null)]"
  let ?bids = "[(IValue (Number 100), IString ''1'', IValue Null, IValue Null),
         (IValue (Number 99), IString ''2'', IValue Null, IValue Null)]"
  have "fst (calCrc32 decimalLib ?asks ?bids) = ''100:1:101:1:99:2:102:2''"
    using f calCrc32_prehash_checksum [of decimalLib ?asks ?bids "Number 100" "Number 99"
        "Number 101" "Number 102" "IValue Null" "IValue Null" "IValue Null" "IValue Null"
        "IValue Null" "IValue Null" "IValue Null" "IValue Null"]
    by blast
  moreover have "int32 (ChecksumIEEE ''100:1:101:1:99:2:102:2'') = - 2076486480"
    by (simp add: crc_eval)
  ultimately show ?thesis
    using f calCrc32_sum [of decimalLib ?asks ?bids]
    by (cases "calCrc32 decimalLib ?asks ?bids") simp
qed

subsection \<open>The tree operations\<close>

text \<open>On keys that are numbers the comparators are those of a linear order.\<close>

lemma ask_cmp_Num [simp]:
  "onNumbers askPriceLevelComparator a b = 0 \<longleftrightarrow> a = b"
  "onNumbers askPriceLevelComparator a b < 0 \<longleftrightarrow> a < b"
  by (auto simp: askPriceLevelComparator_def onNumbers_def)

lemma bid_cmp_Num [simp]:
  "onNumbers bidPriceLevelComparator a b = 0 \<longleftrightarrow> a = b"
  "onNumbers bidPriceLevelComparator a b < 0 \<longleftrightarrow> b < a"
  by (auto simp: bidPriceLevelComparator_def onNumbers_def)

lemma Put_numbers:
  "Put cmp (numbers t) (Num k) v = numbers (Put (onNumbers cmp) t k v)"
  by (induction t) (auto simp: numbers_def onNumbers_def)

lemma Remove_numbers:
  "Remove cmp (numbers t) (Num k) = numbers (Remove (onNumbers cmp) t k)"
  by (induction t) (auto simp: numbers_def onNumbers_def)

lemma Get_numbers: "Get cmp (numbers t) (Num k) = Get (onNumbers cmp) t k"
  by (induction t) (auto simp: numbers_def onNumbers_def)

lemma ordered_numbers:
  "ordered cmp (numbers t) = sorted_wrt (\<lambda>a b. onNumbers cmp (fst a) (fst b) < 0) t"
  by (auto simp: ordered_def numbers_def onNumbers_def sorted_wrt_map list_all_iff)

lemma ex_numbers: "list_all (\<lambda>n. fst n \<noteq> NaN) t \<Longrightarrow> \<exists>t0. t = numbers t0"
proof (induction t)
  case Nil
  have "[] = numbers []" by (simp add: numbers_def)
  then show ?case by blast
next
  case (Cons n t)
  then obtain t0 where t0: "t = numbers t0" by auto
  obtain k v where n: "n = (k, v)" by (cases n)
  with Cons.prems obtain a where a: "k = Num a" by (cases k) auto
  have "n # t = numbers ((a, v) # t0)" by (simp add: n a t0 numbers_def)
  then show ?case by blast
qed

lemma Get_Put_same: "priceCmp cmp \<Longrightarrow> Get (onNumbers cmp) (Put (onNumbers cmp) t k v) k = Some v"
  unfolding priceCmp_def by (induction t) auto

lemma Get_Put_other:
  "priceCmp cmp \<Longrightarrow> q \<noteq> k \<Longrightarrow>
     Get (onNumbers cmp) (Put (onNumbers cmp) t k v) q = Get (onNumbers cmp) t q"
  unfolding priceCmp_def by (induction t) auto

lemma Remove_absent: "Get cmp t k = None \<Longrightarrow> Remove cmp t k = t"
  by (induction t) (auto split: if_splits)

lemma Get_before_all: "\<forall>x\<in>set t. c k (fst x) < 0 \<Longrightarrow> Get c t k = None"
  by (cases t) auto

lemma Get_Remove_same:
  assumes "priceCmp cmp"
  shows "sorted_wrt (\<lambda>a b. onNumbers cmp (fst a) (fst b) < 0) t \<Longrightarrow>
     Get (onNumbers cmp) (Remove (onNumbers cmp) t k) k = None"
proof (induction t)
  case Nil
  then show ?case by simp
next
  case (Cons n t)
  obtain k' v' where n: "n = (k', v')" by (cases n)
  from Cons.prems have ord: "sorted_wrt (\<lambda>a b. onNumbers cmp (fst a) (fst b) < 0) t"
    and below: "\<forall>x\<in>set t. onNumbers cmp k' (fst x) < 0"
    by (simp_all add: n)
  show ?case
  proof (cases "onNumbers cmp k k' = 0")
    case True
    with assms have "k = k'" by (auto simp: priceCmp_def)
    with below True show ?thesis by (simp add: n Get_before_all)
  next
    case False
    with Cons.IH [OF ord] show ?thesis by (simp add: n)
  qed
qed

lemma Get_Remove_other:
  assumes "priceCmp cmp" and "q \<noteq> k"
  shows "sorted_wrt (\<lambda>a b. onNumbers cmp (fst a) (fst b) < 0) t \<Longrightarrow>
     Get (onNumbers cmp) (Remove (onNumbers cmp) t k) q = Get (onNumbers cmp) t q"
proof (induction t)
  case Nil
  then show ?case by simp
next
  case (Cons n t)
  obtain k' v' where n: "n = (k', v')" by (cases n)
  from Cons.prems have ord: "sorted_wrt (\<lambda>a b. onNumbers cmp (fst a) (fst b) < 0) t"
    and below: "\<forall>x\<in>set t. onNumbers cmp k' (fst x) < 0"
    by (simp_all add: n)
  show ?case
  proof (cases "onNumbers cmp k k' = 0")
    case True
    with assms(1) have kk: "k = k'" by (auto simp: priceCmp_def)
    show ?thesis
    proof (cases "onNumbers cmp q k' < 0")
      case True
      with below assms(1) have "\<forall>x\<in>set t. onNumbers cmp q (fst x) < 0"
        by (auto simp: priceCmp_def)
      then have "Get (onNumbers cmp) t q = None" by (rule Get_before_all)
      with True kk assms show ?thesis by (auto simp: n priceCmp_def)
    next
      case False
      with kk assms show ?thesis by (auto simp: n priceCmp_def)
    qed
  next
    case False
    with Cons.IH [OF ord] show ?thesis by (simp add: n)
  qed
qed

lemma set_Put: "set (Put cmp t k v) \<subseteq> insert (k, v) (set t)"
  by (induction t) (auto split: if_splits)

lemma set_Remove: "set (Remove cmp t k) \<subseteq> set t"
  by (induction t) (auto split: if_splits)

lemma sorted_Put:
  assumes "priceCmp cmp"
  shows "sorted_wrt (\<lambda>a b. onNumbers cmp (fst a) (fst b) < 0) t \<Longrightarrow>
     sorted_wrt (\<lambda>a b. onNumbers cmp (fst a) (fst b) < 0) (Put (onNumbers cmp) t k v)"
proof (induction t)
  case Nil
  then show ?case by simp
next
  case (Cons n t)
  let ?c = "onNumbers cmp"
  obtain k' v' where n: "n = (k', v')" by (cases n)
  from Cons.prems have ord: "sorted_wrt (\<lambda>a b. ?c (fst a) (fst b) < 0) t"
    and below: "\<forall>x\<in>set t. ?c k' (fst x) < 0"
    by (simp_all add: n)
  have IH: "sorted_wrt (\<lambda>a b. ?c (fst a) (fst b) < 0) (Put ?c t k v)"
    using Cons.IH [OF ord] .
  have "\<forall>x\<in>set (Put ?c t k v). ?c k' (fst x) < 0" if "\<not> ?c k k' = 0" "\<not> ?c k k' < 0"
    using that below set_Put [of ?c t k v] assms by (auto simp: priceCmp_def)
  moreover have "\<forall>x\<in>set t. ?c k (fst x) < 0" if "?c k k' = 0 \<or> ?c k k' < 0"
    using that below assms by (auto simp: priceCmp_def)
  ultimately show ?case using ord below IH by (auto simp: n)
qed

lemma sorted_Remove:
  "sorted_wrt (\<lambda>a b. c (fst a) (fst b) < 0) t \<Longrightarrow>
     sorted_wrt (\<lambda>a b. c (fst a) (fst b) < 0) (Remove c t k)"
proof (induction t)
  case Nil
  then show ?case by simp
next
  case (Cons n t)
  obtain k' v' where n: "n = (k', v')" by (cases n)
  from Cons show ?case using set_Remove [of c t k] by (auto simp: n)
qed

text \<open>
  C3, as the code has it. One delta level in \<open>mergeDepths\<close>, with string cells and a
  price that parses to a number other than NaN, on a side that is ordered with no NaN
  key. The code reads the size by \<open>StringToInt64\<close>: when that gives 0 the price key is
  removed from the side (the key is gone, every other number keeps its level, and a key
  that was not there leaves the side as it was); otherwise the level is put at its price
  key, new or in place of the level that was there, and every other number keeps its
  level. The side stays ordered.
\<close>

theorem mergeDepths_level:
  assumes "priceCmp cmp" and "ordered cmp t"
    and "cell0 newItem = IString priceStr" and "ParseFloat L priceStr = Some newPrice"
    and "newPrice \<noteq> NaN" and "cell1 newItem = IString numStr"
  shows
    "(StringToInt64 L numStr = 0 \<longrightarrow>
        mergeDepths L cmp t (newItem # rest) = mergeDepths L cmp (Remove cmp t newPrice) rest
        \<and> Get cmp (Remove cmp t newPrice) newPrice = None
        \<and> (\<forall>q. q \<noteq> NaN \<and> q \<noteq> newPrice \<longrightarrow>
              Get cmp (Remove cmp t newPrice) q = Get cmp t q)
        \<and> (Get cmp t newPrice = None \<longrightarrow> Remove cmp t newPrice = t)
        \<and> ordered cmp (Remove cmp t newPrice))
     \<and> (StringToInt64 L numStr \<noteq> 0 \<longrightarrow>
        mergeDepths L cmp t (newItem # rest)
          = mergeDepths L cmp (Put cmp t newPrice newItem) rest
        \<and> Get cmp (Put cmp t newPrice newItem) newPrice = Some newItem
        \<and> (\<forall>q. q \<noteq> NaN \<and> q \<noteq> newPrice \<longrightarrow>
              Get cmp (Put cmp t newPrice newItem) q = Get cmp t q)
        \<and> ordered cmp (Put cmp t newPrice newItem))"
proof -
  let ?c = "onNumbers cmp"
  from assms(2) obtain t0 where t: "t = numbers t0"
    using ex_numbers by (auto simp: ordered_def)
  from assms(5) obtain k where k: "newPrice = Num k" by (cases newPrice) auto
  from assms(2) have s: "sorted_wrt (\<lambda>a b. ?c (fst a) (fst b) < 0) t0"
    by (simp add: t ordered_numbers)
  have step0: "mergeDepths L cmp t (newItem # rest) = mergeDepths L cmp (Remove cmp t newPrice) rest"
    if "StringToInt64 L numStr = 0"
    using that assms(3,4,6) by simp
  have step1: "mergeDepths L cmp t (newItem # rest)
      = mergeDepths L cmp (Put cmp t newPrice newItem) rest"
    if "StringToInt64 L numStr \<noteq> 0"
    using that assms(3,4,6) by simp
  have r1: "Get cmp (Remove cmp t newPrice) newPrice = None"
    unfolding t k Remove_numbers Get_numbers using assms(1) s by (rule Get_Remove_same)
  have r2: "Get cmp (Remove cmp t newPrice) q = Get cmp t q" if "q \<noteq> NaN" "q \<noteq> newPrice" for q
  proof -
    from that(1) obtain q0 where q: "q = Num q0" by (cases q) auto
    with that(2) k have "q0 \<noteq> k" by simp
    then show ?thesis
      unfolding t k q Remove_numbers Get_numbers using assms(1) s
      by (intro Get_Remove_other)
  qed
  have r3: "Remove cmp t newPrice = t" if "Get cmp t newPrice = None"
    using that by (rule Remove_absent)
  have r4: "ordered cmp (Remove cmp t newPrice)"
    unfolding t k Remove_numbers ordered_numbers using s by (rule sorted_Remove)
  have p1: "Get cmp (Put cmp t newPrice newItem) newPrice = Some newItem"
    unfolding t k Put_numbers Get_numbers using assms(1) by (rule Get_Put_same)
  have p2: "Get cmp (Put cmp t newPrice newItem) q = Get cmp t q" if "q \<noteq> NaN" "q \<noteq> newPrice" for q
  proof -
    from that(1) obtain q0 where q: "q = Num q0" by (cases q) auto
    with that(2) k have "q0 \<noteq> k" by simp
    then show ?thesis
      unfolding t k q Put_numbers Get_numbers using assms(1)
      by (intro Get_Put_other)
  qed
  have p4: "ordered cmp (Put cmp t newPrice newItem)"
    unfolding t k Put_numbers ordered_numbers using assms(1) s by (rule sorted_Put)
  show ?thesis
    using step0 step1 r1 r2 r3 r4 p1 p2 p4 by blast
qed

theorem mergeDepths_level_witness:
  "mergeDepths decimalLib askPriceLevelComparator
      [(Num 100, level4 ''100'' ''1''), (Num 102, level4 ''102'' ''5'')]
      [level4 ''100'' ''0'', level4 ''103'' ''0'', level4 ''101'' ''2'', level4 ''102'' ''7'']
     = mergeDepths decimalLib askPriceLevelComparator
         [(Num 102, level4 ''102'' ''5'')]
         [level4 ''103'' ''0'', level4 ''101'' ''2'', level4 ''102'' ''7'']
   \<and> mergeDepths decimalLib askPriceLevelComparator
      [(Num 102, level4 ''102'' ''5'')] [level4 ''101'' ''2'', level4 ''102'' ''7'']
     = mergeDepths decimalLib askPriceLevelComparator
         [(Num 101, level4 ''101'' ''2''), (Num 102, level4 ''102'' ''5'')]
         [level4 ''102'' ''7'']
   \<and> mergeDepths decimalLib askPriceLevelComparator
      [(Num 100, level4 ''100'' ''1''), (Num 102, level4 ''102'' ''5'')]
      [level4 ''100'' ''0'', level4 ''103'' ''0'', level4 ''101'' ''2'', level4 ''102'' ''7'']
     = Returns (None, [(Num 101, level4 ''101'' ''2''), (Num 102, level4 ''102'' ''7'')])"
proof -
  let ?t = "[(Num 100, level4 ''100'' ''1''), (Num 102, level4 ''102'' ''5'')]
              :: (rat float64, jvalue level) tree"
  let ?s = "[(Num 102, level4 ''102'' ''5'')] :: (rat float64, jvalue level) tree"
  have c: "priceCmp (askPriceLevelComparator :: rat float64 \<Rightarrow> rat float64 \<Rightarrow> int)"
    by (simp add: priceCmp_def)
  have o: "ordered askPriceLevelComparator ?t"
    by (simp add: ordered_def askPriceLevelComparator_def)
  have o': "ordered askPriceLevelComparator ?s"
    by (simp add: ordered_def)
  have p: "ParseFloat decimalLib ''100'' = Some (Num 100)"
    by (simp add: lib_eval)
  have p': "ParseFloat decimalLib ''101'' = Some (Num 101)"
    by (simp add: lib_eval)
  have n: "Num (100 :: rat) \<noteq> NaN" "Num (101 :: rat) \<noteq> NaN"
    by simp_all
  have z: "StringToInt64 decimalLib ''0'' = 0"
    by (simp add: lib_eval)
  have nz: "StringToInt64 decimalLib ''2'' \<noteq> 0"
    by (simp add: lib_eval)
  have "mergeDepths decimalLib askPriceLevelComparator ?t
      (level4 ''100'' ''0'' # [level4 ''103'' ''0'', level4 ''101'' ''2'', level4 ''102'' ''7''])
     = mergeDepths decimalLib askPriceLevelComparator
         (Remove askPriceLevelComparator ?t (Num 100))
         [level4 ''103'' ''0'', level4 ''101'' ''2'', level4 ''102'' ''7'']"
    using mergeDepths_level [OF c o _ p n(1), of "level4 ''100'' ''0''" "''0''"] z
    by (simp add: level4_def)
  moreover have "mergeDepths decimalLib askPriceLevelComparator ?s
      (level4 ''101'' ''2'' # [level4 ''102'' ''7''])
     = mergeDepths decimalLib askPriceLevelComparator
         (Put askPriceLevelComparator ?s (Num 101) (level4 ''101'' ''2''))
         [level4 ''102'' ''7'']"
    using mergeDepths_level [OF c o' _ p' n(2), of "level4 ''101'' ''2''" "''2''"] nz
    by (simp add: level4_def)
  ultimately show ?thesis
    by (simp add: lib_eval askPriceLevelComparator_def)
qed

theorem mergeDepths_level_counterexample:
  "ParseFloat decimalLib ''NaN'' = Some NaN
   \<and> StringToInt64 decimalLib ''0'' = 0
   \<and> Num (100 :: rat) \<noteq> NaN
   \<and> mergeDepths decimalLib askPriceLevelComparator [(Num 100, level4 ''100'' ''1'')]
        [level4 ''NaN'' ''0'']
       = Returns (None, [])
   \<and> StringToInt64 decimalLib ''1'' \<noteq> 0
   \<and> mergeDepths decimalLib askPriceLevelComparator [(Num 100, level4 ''100'' ''1'')]
        [level4 ''NaN'' ''1'']
       = Returns (None, [(NaN, level4 ''NaN'' ''1'')])
   \<and> ParseFloat decimalLib ''0.5'' = Some (Num (1 / 2))
   \<and> Num (1 / 2 :: rat) \<noteq> Num 0
   \<and> StringToInt64 decimalLib ''0.5'' = 0
   \<and> mergeDepths decimalLib askPriceLevelComparator [(Num 100, level4 ''100'' ''1'')]
        [level4 ''100'' ''0.5'']
       = Returns (None, [])"
  by (simp add: lib_eval askPriceLevelComparator_def)

subsection \<open>Merging into an item\<close>

text \<open>
  C2. An incremental merge by \<open>update\<close> whose two \<open>mergeDepths\<close> calls went through:
  when the checksum computed over the first 25 levels of each merged side differs from
  the checksum of the incoming message, \<open>update\<close> returns an error and the item keeps
  the \<open>Checksum\<close> and \<open>Timestamp\<close> it had; when it is equal, \<open>update\<close> returns no
  error and the item carries the incoming checksum and timestamp. In both cases the item
  holds the merged sides.
\<close>

theorem update_commits_on_match:
  assumes "mergeDepths L askPriceLevelComparator (Asks di) (uAsks newDI) = Returns (None, asks')"
    and "mergeDepths L bidPriceLevelComparator (Bids di) (uBids newDI) = Returns (None, bids')"
  shows
    "(snd (calCrc32 L (first25Updates asks') (first25Updates bids')) \<noteq> uChecksum newDI \<longrightarrow>
        (\<exists>e di'. update L di newDI = Returns (Some e, di')
           \<and> Checksum di' = Checksum di \<and> Timestamp di' = Timestamp di
           \<and> Asks di' = asks' \<and> Bids di' = bids'))
     \<and> (snd (calCrc32 L (first25Updates asks') (first25Updates bids')) = uChecksum newDI \<longrightarrow>
        (\<exists>di'. update L di newDI = Returns (None, di')
           \<and> Checksum di' = uChecksum newDI \<and> Timestamp di' = uTimestamp newDI
           \<and> Asks di' = asks' \<and> Bids di' = bids'))"
  using assms by (simp add: update_def Let_def split: prod.splits)

theorem update_commits_on_match_witness:
  "mergeDepths decimalLib askPriceLevelComparator (Asks item0) (uAsks btc)
     = Returns (None, [(Num 101, level4 ''101'' ''1'')])
   \<and> mergeDepths decimalLib bidPriceLevelComparator (Bids item0) (uBids btc)
     = Returns (None, [(Num 100, level4 ''100'' ''1'')])
   \<and> snd (calCrc32 decimalLib (first25Updates [(Num 101 :: rat float64, level4 ''101'' ''1'')])
             (first25Updates [(Num 100 :: rat float64, level4 ''100'' ''1'')])) = uChecksum btc
   \<and> snd (calCrc32 decimalLib (first25Updates [(Num 101 :: rat float64, level4 ''101'' ''1'')])
             (first25Updates [(Num 100 :: rat float64, level4 ''100'' ''1'')])) \<noteq> uChecksum btcBad
   \<and> (\<exists>di'. update decimalLib item0 btc = Returns (None, di')
         \<and> Checksum di' = uChecksum btc \<and> Timestamp di' = uTimestamp btc)
   \<and> (\<exists>e di'. update decimalLib item0 btcBad = Returns (Some e, di')
         \<and> Checksum di' = Checksum item0 \<and> Timestamp di' = Timestamp item0)"
proof -
  have a: "mergeDepths decimalLib askPriceLevelComparator (Asks item0) (uAsks btc)
     = Returns (None, [(Num 101, level4 ''101'' ''1'')])"
    by (simp add: item0_def btc_def lib_eval)
  have b: "mergeDepths decimalLib bidPriceLevelComparator (Bids item0) (uBids btc)
     = Returns (None, [(Num 100, level4 ''100'' ''1'')])"
    by (simp add: item0_def btc_def lib_eval)
  have c: "snd (calCrc32 decimalLib (first25Updates [(Num 101 :: rat float64, level4 ''101'' ''1'')])
             (first25Updates [(Num 100 :: rat float64, level4 ''100'' ''1'')])) = uChecksum btc"
    by (simp add: run_eval btc_def)
  have c': "snd (calCrc32 decimalLib (first25Updates [(Num 101 :: rat float64, level4 ''101'' ''1'')])
             (first25Updates [(Num 100 :: rat float64, level4 ''100'' ''1'')])) \<noteq> uChecksum btcBad"
    by (simp add: run_eval btcBad_def btc_def)
  have a': "mergeDepths decimalLib askPriceLevelComparator (Asks item0) (uAsks btcBad)
     = Returns (None, [(Num 101, level4 ''101'' ''1'')])"
    using a by (simp add: btcBad_def)
  have b': "mergeDepths decimalLib bidPriceLevelComparator (Bids item0) (uBids btcBad)
     = Returns (None, [(Num 100, level4 ''100'' ''1'')])"
    using b by (simp add: btcBad_def)
  have ok: "\<exists>di'. update decimalLib item0 btc = Returns (None, di')
         \<and> Checksum di' = uChecksum btc \<and> Timestamp di' = uTimestamp btc"
    using update_commits_on_match [OF a b] c by blast
  have bad: "\<exists>e di'. update decimalLib item0 btcBad = Returns (Some e, di')
         \<and> Checksum di' = Checksum item0 \<and> Timestamp di' = Timestamp item0"
    using update_commits_on_match [OF a' b'] c' by blast
  from a b c c' ok bad show ?thesis by (intro conjI)
qed

subsection \<open>The check of best bid against best ask\<close>







lemmas load_eval = loadWSDepthTableResponse_def applyAction_def DepthTableValid_def
  newDepthItem_def update_def Let_def depthMsg_def hot0_def NewWSHotDepths_def
  askPriceLevelComparator_def bidPriceLevelComparator_def





subsection \<open>Snapshots\<close>

lemma loadPartial_frame:
  "loadPartial L d us = Returns (err, d') \<Longrightarrow>
     hdTable d' = hdTable d
     \<and> (\<forall>id. id \<notin> uInstrumentId ` set (takeWhile (checksumMatches L) us)
            \<longrightarrow> DepthMap d' id = DepthMap d id)
     \<and> (err = None \<longrightarrow> (\<forall>u\<in>set us. checksumMatches L u))"
proof (induction us arbitrary: d)
  case Nil
  then show ?case by simp
next
  case (Cons u us)
  show ?case
  proof (cases "checksumMatches L u")
    case False
    with Cons.prems show ?thesis
      by (auto simp: checksumMatches_def split: prod.splits)
  next
    case True
    with Cons.prems obtain item where
      rest: "loadPartial L (d\<lparr>DepthMap := (DepthMap d)(uInstrumentId u \<mapsto> item)\<rparr>) us
               = Returns (err, d')"
      by (auto simp: checksumMatches_def split: prod.splits run.splits)
    from Cons.IH [OF rest] True show ?thesis by auto
  qed
qed

text \<open>
  C5, as the code has it. In a message with action "partial", an entry whose checksum
  over its supplied levels differs from the checksum it carries makes
  \<open>loadWSDepthTableResponse\<close> return an error (when it returns), and the map changes at
  most at the instruments of the entries accepted before the first such entry: the
  instrument of the failing entry is absent afterwards if it was absent before and none
  of those earlier entries carries it.
\<close>

theorem partial_mismatch_installs_nothing:
  assumes "rAction r = ''partial''" and "u \<in> set (rData r)"
    and "snd (calCrc32 L (uAsks u) (uBids u)) \<noteq> uChecksum u"
    and "loadWSDepthTableResponse L d r = Returns (err, d')"
  shows "err \<noteq> None
     \<and> (\<forall>id. id \<notin> uInstrumentId ` set (takeWhile (checksumMatches L) (rData r))
            \<longrightarrow> DepthMap d' id = DepthMap d id)
     \<and> (DepthMap d (uInstrumentId u) = None
          \<and> uInstrumentId u \<notin> uInstrumentId ` set (takeWhile (checksumMatches L) (rData r))
          \<longrightarrow> DepthMap d' (uInstrumentId u) = None)"
proof (cases "hdTable d \<noteq> rTable r \<or> \<not> DepthTableValid r")
  case True
  with assms(4) show ?thesis
    by (auto simp: loadWSDepthTableResponse_def split: if_splits)
next
  case False
  from assms(2,3) have bad: "\<not> (\<forall>p\<in>set (rData r). checksumMatches L p)"
    by (auto simp: checksumMatches_def)
  from False assms(1,4) obtain e1 d1 where
    ap: "loadPartial L (d\<lparr>hdTable := rTable r\<rparr>) (rData r) = Returns (e1, d1)"
    and res: "e1 \<noteq> None \<longrightarrow> err = e1 \<and> d' = d1" "e1 = None \<longrightarrow> d' = d1"
    by (auto simp: loadWSDepthTableResponse_def applyAction_def
        split: run.splits option.splits prod.splits)
  from loadPartial_frame [OF ap] bad have e1: "e1 \<noteq> None"
    and fr: "\<forall>id. id \<notin> uInstrumentId ` set (takeWhile (checksumMatches L) (rData r))
            \<longrightarrow> DepthMap d1 id = DepthMap d id"
    by auto
  with res show ?thesis by auto
qed

lemma load_eth_btcBad:
  "loadWSDepthTableResponse decimalLib hot0 (depthMsg ''partial'' [eth, btcBad])
     = Returns (Some (ChecksumNotCorrect ''100:1:101:1'' 1189976625 7), hotEth)"
  by (simp add: load_eval run_eval eth_def btc_def btcBad_def hotEth_def ethItem_def)

theorem partial_mismatch_installs_nothing_witness:
  "rAction (depthMsg ''partial'' [eth, btcBad]) = ''partial''
   \<and> btcBad \<in> set (rData (depthMsg ''partial'' [eth, btcBad]))
   \<and> snd (calCrc32 decimalLib (uAsks btcBad) (uBids btcBad)) \<noteq> uChecksum btcBad
   \<and> loadWSDepthTableResponse decimalLib hot0 (depthMsg ''partial'' [eth, btcBad])
       = Returns (Some (ChecksumNotCorrect ''100:1:101:1'' 1189976625 7), hotEth)
   \<and> DepthMap hot0 ''BTC-USD-SWAP'' = None
   \<and> DepthMap hotEth ''BTC-USD-SWAP'' = None"
proof -
  have a: "rAction (depthMsg ''partial'' [eth, btcBad]) = ''partial''"
    by (simp add: depthMsg_def)
  have m: "btcBad \<in> set (rData (depthMsg ''partial'' [eth, btcBad]))"
    by (simp add: depthMsg_def)
  have c: "snd (calCrc32 decimalLib (uAsks btcBad) (uBids btcBad)) \<noteq> uChecksum btcBad"
    by (simp add: run_eval btcBad_def btc_def)
  have i: "uInstrumentId btcBad = ''BTC-USD-SWAP''"
    by (simp add: btcBad_def btc_def)
  have e: "checksumMatches decimalLib eth"
    by (simp add: checksumMatches_def run_eval eth_def)
  have before: "DepthMap hot0 (uInstrumentId btcBad) = None
     \<and> uInstrumentId btcBad \<notin> uInstrumentId `
          set (takeWhile (checksumMatches decimalLib) (rData (depthMsg ''partial'' [eth, btcBad])))"
    using c e by (simp add: i depthMsg_def checksumMatches_def hot0_def NewWSHotDepths_def eth_def)
  have "DepthMap hotEth (uInstrumentId btcBad) = None"
    using partial_mismatch_installs_nothing [OF a m c load_eth_btcBad] before by blast
  with a m c load_eth_btcBad before show ?thesis by (simp add: i)
qed

theorem partial_mismatch_counterexample:
  "rAction (depthMsg ''partial'' [btc, btcBad]) = ''partial''
   \<and> btcBad \<in> set (rData (depthMsg ''partial'' [btc, btcBad]))
   \<and> snd (calCrc32 decimalLib (uAsks btcBad) (uBids btcBad)) \<noteq> uChecksum btcBad
   \<and> uInstrumentId btcBad = ''BTC-USD-SWAP''
   \<and> DepthMap hot0 ''BTC-USD-SWAP'' = None
   \<and> loadWSDepthTableResponse decimalLib hot0 (depthMsg ''partial'' [btc, btcBad])
       = Returns (Some (ChecksumNotCorrect ''100:1:101:1'' 1189976625 7), hotBtc)
   \<and> DepthMap hotBtc ''BTC-USD-SWAP'' = Some btcItem"
  by (simp add: load_eval run_eval btc_def btcBad_def hotBtc_def btcItem_def)

subsection \<open>A failure inside a message\<close>










subsection \<open>A price that does not parse\<close>

lemma mergeDepths_append:
  "mergeDepths L cmp t pre = Returns (None, t1) \<Longrightarrow>
     mergeDepths L cmp t (pre @ rest) = mergeDepths L cmp t1 rest"
proof (induction pre arbitrary: t)
  case Nil
  then show ?case by simp
next
  case (Cons lv pre)
  then show ?case
    by (auto split: iface.splits option.splits if_splits)
qed

lemma mergeDepths_error:
  "mergeDepths L cmp t ds = Returns (Some e, t') \<Longrightarrow>
     e = BadPrice \<and> (\<exists>lv\<in>set ds. \<exists>ps. cell0 lv = IString ps \<and> ParseFloat L ps = None)"
proof (induction ds arbitrary: t)
  case Nil
  then show ?case by simp
next
  case (Cons lv ds)
  then show ?case
    by (auto split: iface.splits option.splits if_splits)
qed

lemma update_error_keeps:
  "update L di newDI = Returns (Some e, di') \<Longrightarrow>
     Checksum di' = Checksum di \<and> Timestamp di' = Timestamp di"
  by (auto simp: update_def Let_def split: run.splits prod.splits option.splits if_splits)

text \<open>
  C7, as the code has it. When the price string of a level does not parse,
  \<open>mergeDepths\<close> returns an error at that level: the levels before it have been
  applied to the side and stay applied, the level and those after it are not applied.
  In \<open>update\<close> the asks are merged before the bids: an ask price that does not parse
  leaves the asks before it merged and the bids untouched, a bid price that does not
  parse leaves the whole ask side and the bids before it merged; the error is returned
  with the sides as they are then. Whenever \<open>update\<close> returns an error the item keeps
  its \<open>Checksum\<close> and \<open>Timestamp\<close>. No other error comes out of \<open>mergeDepths\<close>: the
  size string is read by \<open>StringToInt64\<close>, which returns no error.
\<close>

theorem bad_price_stops_the_merge:
  assumes "cell0 bad = IString priceStr" and "ParseFloat L priceStr = None"
  shows
    "(mergeDepths L cmp t pre = Returns (None, t1) \<longrightarrow>
        mergeDepths L cmp t (pre @ bad # post) = Returns (Some BadPrice, t1))
     \<and> (uAsks newDI = pre @ bad # post
          \<and> mergeDepths L askPriceLevelComparator (Asks di) pre = Returns (None, asks1) \<longrightarrow>
        update L di newDI = Returns (Some BadPrice, di\<lparr>Asks := asks1\<rparr>))
     \<and> (mergeDepths L askPriceLevelComparator (Asks di) (uAsks newDI) = Returns (None, asks')
          \<and> uBids newDI = pre @ bad # post
          \<and> mergeDepths L bidPriceLevelComparator (Bids di) pre = Returns (None, bids1) \<longrightarrow>
        update L di newDI = Returns (Some BadPrice, di\<lparr>Asks := asks', Bids := bids1\<rparr>))
     \<and> (update L di newDI = Returns (Some e, di') \<longrightarrow>
          Checksum di' = Checksum di \<and> Timestamp di' = Timestamp di)
     \<and> (mergeDepths L cmp t ds = Returns (Some e, t') \<longrightarrow>
          e = BadPrice \<and> (\<exists>lv\<in>set ds. \<exists>ps. cell0 lv = IString ps \<and> ParseFloat L ps = None))"
proof -
  have stop: "mergeDepths L c s (bad # post) = Returns (Some BadPrice, s)" for c s
    using assms by simp
  have one: "mergeDepths L c s (pre @ bad # post) = Returns (Some BadPrice, s1)"
    if "mergeDepths L c s pre = Returns (None, s1)" for c s s1
    using mergeDepths_append [OF that, of "bad # post"] stop by simp
  have asks: "update L di newDI = Returns (Some BadPrice, di\<lparr>Asks := asks1\<rparr>)"
    if "uAsks newDI = pre @ bad # post"
      and "mergeDepths L askPriceLevelComparator (Asks di) pre = Returns (None, asks1)"
    using that(1) one [OF that(2)] by (simp add: update_def)
  have bids: "update L di newDI = Returns (Some BadPrice, di\<lparr>Asks := asks', Bids := bids1\<rparr>)"
    if "mergeDepths L askPriceLevelComparator (Asks di) (uAsks newDI) = Returns (None, asks')"
      and "uBids newDI = pre @ bad # post"
      and "mergeDepths L bidPriceLevelComparator (Bids di) pre = Returns (None, bids1)"
    using that(1,2) one [OF that(3)] by (simp add: update_def)
  show ?thesis
    using one asks bids update_error_keeps [of L di newDI e di']
      mergeDepths_error [of L cmp t ds e t'] by blast
qed

theorem bad_price_stops_the_merge_witness:
  "cell0 (level4 ''x'' ''1'') = IString ''x'' \<and> ParseFloat decimalLib ''x'' = None
   \<and> mergeDepths decimalLib askPriceLevelComparator [] [level4 ''101'' ''1'']
        = Returns (None, [(Num 101, level4 ''101'' ''1'')])
   \<and> mergeDepths decimalLib askPriceLevelComparator []
        [level4 ''101'' ''1'', level4 ''x'' ''1'', level4 ''102'' ''1'']
        = Returns (Some BadPrice, [(Num 101, level4 ''101'' ''1'')])
   \<and> update decimalLib item0 btcBadBid
        = Returns (Some BadPrice, item0\<lparr>Asks := [(Num 101, level4 ''101'' ''1'')], Bids := []\<rparr>)
   \<and> update decimalLib btcItem btcBadAsk = Returns (Some BadPrice, btcItem)"
proof -
  have c: "cell0 (level4 ''x'' ''1'') = IString ''x''"
    by (simp add: level4_def)
  have p: "ParseFloat decimalLib ''x'' = None"
    by (simp add: lib_eval)
  have m: "mergeDepths decimalLib askPriceLevelComparator [] [level4 ''101'' ''1'']
        = Returns (None, [(Num 101, level4 ''101'' ''1'')])"
    by (simp add: lib_eval)
  have a: "mergeDepths decimalLib askPriceLevelComparator (Asks item0) (uAsks btcBadBid)
        = Returns (None, [(Num 101, level4 ''101'' ''1'')])"
    using m by (simp add: item0_def btcBadBid_def btc_def)
  have b: "uBids btcBadBid = [] @ level4 ''x'' ''1'' # []"
    by (simp add: btcBadBid_def)
  have e: "mergeDepths decimalLib bidPriceLevelComparator (Bids item0) [] = Returns (None, [])"
    by (simp add: item0_def)
  have a': "uAsks btcBadAsk = [] @ level4 ''x'' ''1'' # []"
    by (simp add: btcBadAsk_def)
  have e': "mergeDepths decimalLib askPriceLevelComparator (Asks btcItem) []
      = Returns (None, Asks btcItem)"
    by simp
  have one: "mergeDepths decimalLib askPriceLevelComparator []
        ([level4 ''101'' ''1''] @ level4 ''x'' ''1'' # [level4 ''102'' ''1''])
        = Returns (Some BadPrice, [(Num 101, level4 ''101'' ''1'')])"
    using bad_price_stops_the_merge [OF c p] m by blast
  have two: "update decimalLib item0 btcBadBid
        = Returns (Some BadPrice, item0\<lparr>Asks := [(Num 101, level4 ''101'' ''1'')], Bids := []\<rparr>)"
    using bad_price_stops_the_merge [OF c p] a b e by blast
  have "update decimalLib btcItem btcBadAsk
        = Returns (Some BadPrice, btcItem\<lparr>Asks := Asks btcItem\<rparr>)"
    using bad_price_stops_the_merge [OF c p] a' e' by blast
  then have three: "update decimalLib btcItem btcBadAsk = Returns (Some BadPrice, btcItem)"
    by simp
  from c p m one two three show ?thesis by simp
qed

theorem parse_failure_counterexample:
  "uBids btcBadBid = [level4 ''x'' ''1''] \<and> ParseFloat decimalLib ''x'' = None
   \<and> Asks item0 = []
   \<and> update decimalLib item0 btcBadBid
        = Returns (Some BadPrice, item0\<lparr>Asks := [(Num 101, level4 ''101'' ''1'')]\<rparr>)
   \<and> ParseFloat decimalLib ''abc'' = None
   \<and> mergeDepths decimalLib askPriceLevelComparator [(Num 101, level4 ''101'' ''1'')]
        [level4 ''101'' ''abc'']
        = Returns (None, [])"
  by (simp add: update_def btcBadBid_def btc_def item0_def lib_eval askPriceLevelComparator_def)

subsection \<open>Classifying a raw message\<close>

lemma HasPrefix_iff: "HasPrefix s p \<longleftrightarrow> (\<exists>q. s = p @ q)"
  by (induction s p rule: HasPrefix.induct) auto

lemma Contains_iff: "Contains s sub \<longleftrightarrow> (\<exists>p q. s = p @ sub @ q)"
proof (induction s)
  case Nil
  then show ?case by auto
next
  case (Cons c cs)
  show ?case
  proof
    assume "Contains (c # cs) sub"
    then consider "HasPrefix (c # cs) sub" | "Contains cs sub" by auto
    then show "\<exists>p q. c # cs = p @ sub @ q"
    proof cases
      case 1
      then obtain q where "c # cs = sub @ q" by (auto simp: HasPrefix_iff)
      then have "c # cs = [] @ sub @ q" by simp
      then show ?thesis by blast
    next
      case 2
      with Cons.IH obtain p q where "cs = p @ sub @ q" by auto
      then have "c # cs = (c # p) @ sub @ q" by simp
      then show ?thesis by blast
    qed
  next
    assume "\<exists>p q. c # cs = p @ sub @ q"
    then obtain p q where pq: "c # cs = p @ sub @ q" by auto
    show "Contains (c # cs) sub"
    proof (cases p)
      case Nil
      with pq have "HasPrefix (c # cs) sub" by (auto simp: HasPrefix_iff)
      then show ?thesis by simp
    next
      case (Cons a p')
      with pq have "cs = p' @ sub @ q" by simp
      with Cons.IH have "Contains cs sub" by auto
      then show ?thesis by simp
    qed
  qed
qed

lemma Contains_nonempty: "Contains s ''depth'' \<Longrightarrow> s \<noteq> []"
  by (cases s) auto

text \<open>
  C8, as the code has it. \<open>loadResponse\<close> tries EventResponse, DepthTableResponse,
  TableResponse, ErrorResponse and then the string "pong", in this order, and returns
  the first whose decode succeeds and whose validity predicate holds, with no error.
  When none does, it returns no response and the error of the last decode, the one into
  ErrorResponse, which is nil when that decode succeeded. An EventResponse is valid
  when its event and its channel are not empty or its event is "login"; a
  DepthTableResponse is valid when its table name contains "depth" and it has a data
  entry.
\<close>

theorem loadResponse_first_valid:
  "loadResponse J rspMsg =
     (case firstSome (candidates J rspMsg) of
        Some rsp \<Rightarrow> (Some rsp, None)
      | None \<Rightarrow> (None, errOf (toErrorResponse J rspMsg)))
   \<and> (EventValid ev \<longleftrightarrow> (evEvent ev \<noteq> [] \<and> evChannel ev \<noteq> []) \<or> evEvent ev = ''login'')
   \<and> (DepthTableValid r \<longleftrightarrow> (\<exists>p q. rTable r = p @ ''depth'' @ q) \<and> rData r \<noteq> [])"
proof (intro conjI)
  show "loadResponse J rspMsg =
     (case firstSome (candidates J rspMsg) of
        Some rsp \<Rightarrow> (Some rsp, None)
      | None \<Rightarrow> (None, errOf (toErrorResponse J rspMsg)))"
    by (simp add: loadResponse_def candidates_def split: option.splits)
  show "EventValid ev \<longleftrightarrow> (evEvent ev \<noteq> [] \<and> evChannel ev \<noteq> []) \<or> evEvent ev = ''login''"
    by (simp add: EventValid_def)
  have "Contains (rTable r) ''depth'' \<Longrightarrow> rTable r \<noteq> []"
    by (rule Contains_nonempty)
  then show "DepthTableValid r \<longleftrightarrow> (\<exists>p q. rTable r = p @ ''depth'' @ q) \<and> rData r \<noteq> []"
    unfolding DepthTableValid_def Contains_iff [symmetric] by auto
qed

theorem loadResponse_first_valid_witness:
  "loadResponse tinyJson ''pong'' = (Some (Pong ''pong''), None)
   \<and> loadResponse tinyJson ''ping'' = (None, Some SyntaxError)"
proof -
  have "firstSome (candidates tinyJson ''pong'') = Some (Pong ''pong'')"
    by (simp add: candidates_def tinyJson_def decoded_def)
  moreover have "firstSome (candidates tinyJson ''ping'') = None"
    by (simp add: candidates_def tinyJson_def decoded_def)
  moreover have "errOf (toErrorResponse tinyJson ''ping'') = Some SyntaxError"
    by (simp add: tinyJson_def errOf_def)
  ultimately show ?thesis
    using loadResponse_first_valid [of tinyJson "''pong''", THEN conjunct1]
      loadResponse_first_valid [of tinyJson "''ping''", THEN conjunct1]
    by simp
qed

theorem no_match_counterexample:
  "toErrorResponse tinyJson ''{}'' = Inr \<lparr>erEvent = [], erMessage = [], erErrorCode = 0\<rparr>
   \<and> decoded (toEventResponse tinyJson ''{}'') EventValid = None
   \<and> decoded (toDepthTableResponse tinyJson ''{}'') DepthTableValid = None
   \<and> decoded (toTableResponse tinyJson ''{}'') TableValid = None
   \<and> decoded (toErrorResponse tinyJson ''{}'') ErrorValid = None
   \<and> ''{}'' \<noteq> ''pong''
   \<and> loadResponse tinyJson ''{}'' = (None, None)"
  by (simp add: loadResponse_def tinyJson_def decoded_def errOf_def EventValid_def
      DepthTableValid_def TableValid_def ErrorValid_def)


subsection \<open>An update for an instrument the table has no book of\<close>

text \<open>
  C9 fails on the code. An entry for an instrument that is not in the map, carrying a
  checksum that does not match its levels, is rejected with an error when the action is
  "partial" and the map stays without the instrument; with the action "update" the same
  entry goes through \<open>newDepthItem\<close>, which drops the error of \<open>update\<close>: the call
  returns no error and the book is installed, carrying the checksum that did not match.
\<close>

theorem update_unseen_skips_checksum:
  "DepthMap hot0 (uInstrumentId btcBad) = None
   \<and> snd (calCrc32 decimalLib (uAsks btcBad) (uBids btcBad)) \<noteq> uChecksum btcBad
   \<and> loadWSDepthTableResponse decimalLib hot0 (depthMsg ''partial'' [btcBad])
       = Returns (Some (ChecksumNotCorrect ''100:1:101:1'' 1189976625 7), hot0)
   \<and> loadWSDepthTableResponse decimalLib hot0 (depthMsg ''update'' [btcBad])
       = Returns (None, hotBtcBad)
   \<and> DepthMap hotBtcBad ''BTC-USD-SWAP'' = Some (btcItem\<lparr>Checksum := 7\<rparr>)"
  by (simp add: load_eval run_eval btc_def btcBad_def hotBtcBad_def btcItem_def)


subsection \<open>The check on a missing book or an empty side\<close>

text \<open>
  C10. The last loop of \<open>loadWSDepthTableResponse\<close> reads the book of every entry and
  the leftmost node of both sides with no test. There are valid responses on which the
  call panics: one whose action is neither "partial" nor "update" for an instrument
  that is not in the map, a snapshot with no level, and an update that removes the only
  ask of a book.
\<close>

theorem load_panics_without_book_or_side:
  "DepthTableValid (depthMsg ''insert'' [btc])
   \<and> hdTable hot0 = rTable (depthMsg ''insert'' [btc])
   \<and> DepthMap hot0 (uInstrumentId btc) = None
   \<and> loadWSDepthTableResponse decimalLib hot0 (depthMsg ''insert'' [btc]) = Panics
   \<and> DepthTableValid (depthMsg ''partial'' [noLevels])
   \<and> loadWSDepthTableResponse decimalLib hot0 (depthMsg ''partial'' [noLevels]) = Panics
   \<and> DepthTableValid (depthMsg ''update'' [dropAsk])
   \<and> hdTable hotBtc = rTable (depthMsg ''update'' [dropAsk])
   \<and> applyAction decimalLib hotBtc (depthMsg ''update'' [dropAsk])
       = Returns (None, hotBtc\<lparr>DepthMap := [''BTC-USD-SWAP'' \<mapsto>
           btcItem\<lparr>Asks := [], Timestamp := ''2019-04-16T11:03:04.000Z'',
                   Checksum := - 95115943\<rparr>]\<rparr>)
   \<and> loadWSDepthTableResponse decimalLib hotBtc (depthMsg ''update'' [dropAsk]) = Panics"
  by (simp add: load_eval run_eval btc_def noLevels_def dropAsk_def hotBtc_def btcItem_def)

end
